theory Spec2Isabelle
  imports Main
begin

section \<open>Strings and paths\<close>

text \<open>
  Python strings are modelled as \<open>string\<close> (lists of characters). \<open>str.lower\<close> is
  modelled on the ASCII letters, which is what the keys of the template table and the
  examples of the specification use; every other character is left as it is.
\<close>

definition lower_char :: "char \<Rightarrow> char" where
  "lower_char c =
     (case map_of (zip ''ABCDEFGHIJKLMNOPQRSTUVWXYZ'' ''abcdefghijklmnopqrstuvwxyz'') c of
        None \<Rightarrow> c
      | Some d \<Rightarrow> d)"

definition lower :: "string \<Rightarrow> string" where
  "lower s = map lower_char s"

text \<open>\<open>s.rfind(c)\<close>: the highest index of \<open>c\<close> in \<open>s\<close>, or \<open>-1\<close>.\<close>

fun rfind :: "char \<Rightarrow> string \<Rightarrow> int" where
  "rfind c [] = -1"
| "rfind c (x # xs) =
     (let r = rfind c xs
      in if 0 \<le> r then r + 1 else if x = c then 0 else -1)"

definition startswith :: "string \<Rightarrow> string \<Rightarrow> bool" where
  "startswith s p = (take (length p) s = p)"

definition endswith :: "string \<Rightarrow> string \<Rightarrow> bool" where
  "endswith s p = (length p \<le> length s \<and> drop (length s - length p) s = p)"

text \<open>\<open>s.count(c)\<close> for a one-character argument.\<close>

definition count_char :: "string \<Rightarrow> char \<Rightarrow> nat" where
  "count_char s c = length (filter (\<lambda>x. x = c) s)"

text \<open>\<open>os.path.join\<close>, \<open>os.path.basename\<close> and \<open>os.path.splitext\<close> of posixpath.\<close>

definition join :: "string \<Rightarrow> string \<Rightarrow> string" where
  "join a b =
     (if startswith b ''/'' then b
      else if a = [] \<or> endswith a ''/'' then a @ b
      else a @ ''/'' @ b)"

definition basename :: "string \<Rightarrow> string" where
  "basename p = drop (nat (rfind (CHR ''/'') p + 1)) p"

text \<open>
  The loop of \<open>genericpath._splitext\<close> that skips leading dots: it answers whether a
  character other than a dot stands in \<open>p[filenameIndex:dotIndex]\<close>.
\<close>

function has_stem :: "string \<Rightarrow> nat \<Rightarrow> nat \<Rightarrow> bool" where
  "has_stem p filenameIndex dotIndex =
     (if filenameIndex < dotIndex
      then (if p ! filenameIndex \<noteq> CHR ''.'' then True
            else has_stem p (filenameIndex + 1) dotIndex)
      else False)"
  by pat_completeness auto
termination
  by (relation "measure (\<lambda>(p, i, d). d - i)") auto

declare has_stem.simps [simp del]

text \<open>\<open>os.path.splitext(p)[0]\<close>.\<close>

definition splitext_root :: "string \<Rightarrow> string" where
  "splitext_root p =
     (let sepIndex = rfind (CHR ''/'') p;
          dotIndex = rfind (CHR ''.'') p
      in if dotIndex > sepIndex \<and> has_stem p (nat (sepIndex + 1)) (nat dotIndex)
         then take (nat dotIndex) p
         else p)"

section \<open>Errors, file system, world\<close>

text \<open>
  The exceptions the program raises or lets through, under their Python names. The
  specification calls \<open>FileExistsError\<close> and \<open>IsADirectoryError\<close> \<open>AlreadyExists\<close>,
  \<open>KeyError\<close> \<open>UnknownSite\<close>, \<open>AssertionError\<close> an archive-integrity error, and
  \<open>HTTPError\<close> and \<open>URLError\<close> a network error. \<open>OtherError\<close> stands for any other
  exception that a library call raises.
\<close>

datatype error =
    FileExistsError string
  | IsADirectoryError string
  | NotADirectoryError string
  | KeyError string
  | AssertionError string
  | HTTPError
  | URLError
  | OtherError string

datatype node = File string | Dir

type_synonym filesystem = "string \<Rightarrow> node option"

text \<open>
  \<open>os.path.isdir\<close> accepts a trailing separator (\<open>parent/root/\<close> names the directory
  \<open>parent/root\<close>); \<open>os.path.isfile\<close> is false on a path that ends in a separator.
\<close>

fun rstrip_sep :: "string \<Rightarrow> string" where
  "rstrip_sep p = (if length p > 1 \<and> endswith p ''/'' then butlast p else p)"

definition isdir :: "filesystem \<Rightarrow> string \<Rightarrow> bool" where
  "isdir f p = (case f (rstrip_sep p) of Some Dir \<Rightarrow> True | _ \<Rightarrow> False)"

definition isfile :: "filesystem \<Rightarrow> string \<Rightarrow> bool" where
  "isfile f p = (case f p of Some (File c) \<Rightarrow> \<not> endswith p ''/'' | _ \<Rightarrow> False)"

text \<open>\<open>os.remove\<close>, called by the program only on a path that \<open>isfile\<close> accepts.\<close>

definition remove :: "filesystem \<Rightarrow> string \<Rightarrow> filesystem" where
  "remove f p = f(p := None)"

text \<open>
  The calls the program makes to services outside it are recorded in a trace, in the
  order the source makes them.
\<close>

datatype event =
    Retrieve string string
  | Remove string
  | Extract string string
  | Rename string string
  | Probe string

record world =
  fs :: filesystem
  cwd :: string
  trace :: "event list"

definition log :: "event \<Rightarrow> world \<Rightarrow> world" where
  "log ev w = w\<lparr>trace := trace w @ [ev]\<rparr>"

text \<open>
  The transport, the archive library and \<open>os.rename\<close> are services of the platform:
  the program is verified for every behaviour of theirs. Each may fail (\<open>Some e\<close>, or
  \<open>Inl e\<close>) and may change the file system in any way.
  \<^item> \<open>urlretrieve url path\<close>: \<open>urllib.request.urlretrieve\<close>;
  \<^item> \<open>urlopen url\<close>: \<open>urllib.request.urlopen\<close>, \<open>None\<close> when the URL opens;
  \<^item> \<open>namelist f zip_path\<close>: \<open>zipfile.ZipFile(zip_path).namelist()\<close>;
  \<^item> \<open>extractall zip_path parent\<close>: \<open>ZipFile.extractall(parent)\<close>;
  \<^item> \<open>rename src dst\<close>: \<open>os.rename\<close>.
\<close>

record services =
  urlretrieve :: "string \<Rightarrow> string \<Rightarrow> filesystem \<Rightarrow> error option \<times> filesystem"
  urlopen :: "string \<Rightarrow> error option"
  namelist :: "filesystem \<Rightarrow> string \<Rightarrow> error + string list"
  extractall :: "string \<Rightarrow> string \<Rightarrow> filesystem \<Rightarrow> error option \<times> filesystem"
  rename :: "string \<Rightarrow> string \<Rightarrow> filesystem \<Rightarrow> error option \<times> filesystem"

section \<open>download_file\<close>

text \<open>Lines 41 to 44 of the source: the path the file is saved to.\<close>

definition destination :: "world \<Rightarrow> string \<Rightarrow> string option \<Rightarrow> string" where
  "destination w source_url save_path =
     (let save_path1 = (case save_path of
                          None \<Rightarrow> join (cwd w) (basename source_url)
                        | Some p \<Rightarrow> p)
      in if isdir (fs w) save_path1 then join save_path1 (basename source_url)
         else save_path1)"

definition download_file ::
  "services \<Rightarrow> string \<Rightarrow> string option \<Rightarrow> world \<Rightarrow> (error + string) \<times> world" where
  "download_file L source_url save_path w =
     (let save_path' = destination w source_url save_path
      in if isfile (fs w) save_path' then (Inl (FileExistsError save_path'), w)
         else
           (let w1 = log (Retrieve source_url save_path') w;
                (r, f) = urlretrieve L source_url save_path' (fs w1);
                w2 = w1\<lparr>fs := f\<rparr>
            in case r of
                 None \<Rightarrow> (Inr save_path', w2)
               | Some e \<Rightarrow>
                   (if isfile (fs w2) save_path'
                    then (Inl e, (log (Remove save_path') w2)\<lparr>fs := remove (fs w2) save_path'\<rparr>)
                    else (Inl e, w2))))"

section \<open>clone_from_url\<close>

text \<open>
  The loop of lines 74 to 79 over \<open>repo.namelist()\<close>: \<open>Inr (Some root)\<close> when the
  loop breaks at a root entry, \<open>Inr None\<close> when it runs to the end, \<open>Inl\<close> when the
  assertion on a name fails.
\<close>

fun find_root :: "string list \<Rightarrow> error + string option" where
  "find_root [] = Inr None"
| "find_root (name # names) =
     (if name \<noteq> [] \<and> \<not> startswith name ''/''
      then (if count_char name (CHR ''/'') = 1 \<and> endswith name ''/''
            then Inr (Some name)
            else find_root names)
      else Inl (AssertionError ''Downloaded repo contained absolute path.''))"

text \<open>Lines 65 to 68 (and 108 to 111): the parent folder, or \<open>NotADirectoryError\<close>.\<close>

definition resolve_parent :: "world \<Rightarrow> string option \<Rightarrow> error + string" where
  "resolve_parent w parent =
     (case parent of
        None \<Rightarrow> Inr (cwd w)
      | Some p \<Rightarrow> if \<not> isdir (fs w) p then Inl (NotADirectoryError p) else Inr p)"

text \<open>Lines 73 to 90: the body of the \<open>try\<close> statement.\<close>

definition unpack ::
  "services \<Rightarrow> string \<Rightarrow> string \<Rightarrow> world \<Rightarrow> (error + string) \<times> world" where
  "unpack L zip_path parent w =
     (case namelist L (fs w) zip_path of
        Inl e \<Rightarrow> (Inl e, w)
      | Inr names \<Rightarrow>
          (case find_root names of
             Inl e \<Rightarrow> (Inl e, w)
           | Inr None \<Rightarrow> (Inl (AssertionError ''Downloaded repo was empty.''), w)
           | Inr (Some root) \<Rightarrow>
               (let downloaded_path = join parent root
                in if isdir (fs w) downloaded_path
                   then (Inl (IsADirectoryError downloaded_path), w)
                   else
                     (let w1 = log (Extract zip_path parent) w;
                          (r, f) = extractall L zip_path parent (fs w1);
                          w2 = w1\<lparr>fs := f\<rparr>
                      in case r of
                           Some e \<Rightarrow> (Inl e, w2)
                         | None \<Rightarrow>
                             (if \<not> isdir (fs w2) downloaded_path
                              then (Inl (NotADirectoryError downloaded_path), w2)
                              else (Inr downloaded_path, w2))))))"

definition clone_from_url ::
  "services \<Rightarrow> string \<Rightarrow> string option \<Rightarrow> world \<Rightarrow> (error + string) \<times> world" where
  "clone_from_url L source_url parent w =
     (case resolve_parent w parent of
        Inl e \<Rightarrow> (Inl e, w)
      | Inr parent' \<Rightarrow>
          (case download_file L source_url (Some parent') w of
             (Inl e, w1) \<Rightarrow> (Inl e, w1)
           | (Inr zip_path, w1) \<Rightarrow>
               (let (r, w2) = unpack L zip_path parent' w1
                in if isfile (fs w2) zip_path
                   then (r, (log (Remove zip_path) w2)\<lparr>fs := remove (fs w2) zip_path\<rparr>)
                   else (r, w2))))"

section \<open>clone\<close>

definition URL_TEMPLATES :: "(string \<times> string) list" where
  "URL_TEMPLATES =
     [(''bitbucket'', ''https://bitbucket.org/{user}/{repo}/get/master.zip''),
      (''github'', ''https://github.com/{user}/{repo}/archive/master.zip'')]"

text \<open>
  \<open>template.format(user=user, repo=repo)\<close> for a template whose only braces are the
  replacement fields \<open>{user}\<close> and \<open>{repo}\<close>, as in both entries of the table.
\<close>

function format_template :: "string \<Rightarrow> string \<Rightarrow> string \<Rightarrow> string" where
  "format_template [] user repo = []"
| "format_template (c # cs) user repo =
     (if c = CHR ''{'' \<and> take 5 cs = ''user}'' then user @ format_template (drop 5 cs) user repo
      else if c = CHR ''{'' \<and> take 5 cs = ''repo}'' then repo @ format_template (drop 5 cs) user repo
      else c # format_template cs user repo)"
  by pat_completeness auto
termination
  by (relation "measure (\<lambda>(t, u, r). length t)") auto

definition clone ::
  "services \<Rightarrow> string \<Rightarrow> string \<Rightarrow> string \<Rightarrow> string option \<Rightarrow> world
     \<Rightarrow> (error + string) \<times> world" where
  "clone L repo user site parent w =
     (case resolve_parent w parent of
        Inl e \<Rightarrow> (Inl e, w)
      | Inr parent' \<Rightarrow>
          (let path = join parent' repo
           in if isdir (fs w) path then (Inl (IsADirectoryError path), w)
              else
                (let site1 = lower site
                 in case (if map_of URL_TEMPLATES site1 = None
                          then (let base = splitext_root site1
                                in if map_of URL_TEMPLATES base = None
                                   then Inl (KeyError site1)
                                   else Inr base)
                          else Inr site1) of
                      Inl e \<Rightarrow> (Inl e, w)
                    | Inr site2 \<Rightarrow>
                        (case map_of URL_TEMPLATES site2 of
                           None \<Rightarrow> (Inl (KeyError site2), w)
                         | Some template \<Rightarrow>
                             (let url = format_template template user repo
                              in case clone_from_url L url (Some parent') w of
                                   (Inl e, w1) \<Rightarrow> (Inl e, w1)
                                 | (Inr downloaded_path, w1) \<Rightarrow>
                                     (let w2 = log (Rename downloaded_path path) w1;
                                          (r, f) = rename L downloaded_path path (fs w2);
                                          w3 = w2\<lparr>fs := f\<rparr>
                                      in case r of
                                           Some e \<Rightarrow> (Inl e, w3)
                                         | None \<Rightarrow>
                                             (if \<not> isdir (fs w3) path
                                              then (Inl (NotADirectoryError path), w3)
                                              else (Inr path, w3))))))))"

section \<open>iter_default_users\<close>

text \<open>
  What the operating system answers to the four identity queries:
  \<open>getpass.getuser()\<close>, which raises when no source of its own is available;
  \<open>os.path.expanduser('~')\<close>, which returns its argument when it cannot expand it;
  \<open>os.environ\<close>; and \<open>os.getlogin()\<close>, which raises when there is no login name.
\<close>

record identity =
  getuser :: "error + string"
  home :: string
  environ :: "string \<Rightarrow> string option"
  getlogin :: "error + string"

text \<open>The loop of lines 153 to 157: the candidates whose lowercase form is not covered yet.\<close>

fun uncovered :: "string list \<Rightarrow> string set \<Rightarrow> string list" where
  "uncovered [] covered = []"
| "uncovered (candidate # candidates) covered =
     (if lower candidate \<notin> covered
      then candidate # uncovered candidates (insert (lower candidate) covered)
      else uncovered candidates covered)"

definition iter_default_users :: "identity \<Rightarrow> error + string list" where
  "iter_default_users idn =
     (case getuser idn of
        Inl e \<Rightarrow> Inl e
      | Inr u \<Rightarrow>
          (let candidates = [u, basename (home idn)];
               candidates1 = candidates @ List.map_filter (environ idn) [''USER'', ''USERNAME''];
               candidates2 = candidates1 @ (case getlogin idn of Inl e \<Rightarrow> [] | Inr l \<Rightarrow> [l])
           in Inr (uncovered candidates2 {})))"

section \<open>search\<close>

text \<open>
  An argument of \<open>search\<close> is one string or a sequence of strings. The generator is
  modelled by the list of the triples it yields when it is consumed to its end, the
  exception that ends it (if any), and the world with the probes in its trace.
\<close>

datatype arg = Str string | Seq "string list"

type_synonym triple = "string \<times> string \<times> string"

fun search_repos ::
  "services \<Rightarrow> string \<Rightarrow> string \<Rightarrow> string \<Rightarrow> string list \<Rightarrow> world
     \<Rightarrow> (triple list \<times> error option) \<times> world" where
  "search_repos L template site user [] w = (([], None), w)"
| "search_repos L template site user (repo # repos) w =
     (let url = format_template template user repo;
          w1 = log (Probe url) w
      in case urlopen L url of
           None \<Rightarrow>
             (case search_repos L template site user repos w1 of
                ((ys, e), w2) \<Rightarrow> (((repo, user, site) # ys, e), w2))
         | Some err \<Rightarrow>
             (if err = HTTPError \<or> err = URLError
              then search_repos L template site user repos w1
              else (([], Some err), w1)))"

fun search_users ::
  "services \<Rightarrow> string \<Rightarrow> string \<Rightarrow> string list \<Rightarrow> string list \<Rightarrow> world
     \<Rightarrow> (triple list \<times> error option) \<times> world" where
  "search_users L template site [] repos w = (([], None), w)"
| "search_users L template site (user # users) repos w =
     (case search_repos L template site user repos w of
        ((ys, Some e), w1) \<Rightarrow> ((ys, Some e), w1)
      | ((ys, None), w1) \<Rightarrow>
          (case search_users L template site users repos w1 of
             ((zs, e), w2) \<Rightarrow> ((ys @ zs, e), w2)))"

fun search_sites ::
  "services \<Rightarrow> string list \<Rightarrow> string list \<Rightarrow> string list \<Rightarrow> world
     \<Rightarrow> (triple list \<times> error option) \<times> world" where
  "search_sites L [] users repos w = (([], None), w)"
| "search_sites L (site # sites) users repos w =
     (let site1 = lower site
      in case (if map_of URL_TEMPLATES site1 = None
               then (let base = splitext_root site1
                     in if map_of URL_TEMPLATES base = None
                        then Inl (KeyError site1)
                        else Inr base)
               else Inr site1) of
           Inl e \<Rightarrow> (([], Some e), w)
         | Inr site2 \<Rightarrow>
             (case map_of URL_TEMPLATES site2 of
                None \<Rightarrow> (([], Some (KeyError site2)), w)
              | Some template \<Rightarrow>
                  (case search_users L template site2 users repos w of
                     ((ys, Some e), w1) \<Rightarrow> ((ys, Some e), w1)
                   | ((ys, None), w1) \<Rightarrow>
                       (case search_sites L sites users repos w1 of
                          ((zs, e), w2) \<Rightarrow> ((ys @ zs, e), w2)))))"

definition search ::
  "services \<Rightarrow> identity \<Rightarrow> arg \<Rightarrow> arg option \<Rightarrow> arg option \<Rightarrow> world
     \<Rightarrow> (triple list \<times> error option) \<times> world" where
  "search L idn repos users sites w =
     (let repos1 = (case repos of Str r \<Rightarrow> [r] | Seq rs \<Rightarrow> rs)
      in case (case users of
                 None \<Rightarrow> iter_default_users idn
               | Some (Str u) \<Rightarrow> Inr [u]
               | Some (Seq us) \<Rightarrow> Inr us) of
           Inl e \<Rightarrow> (([], Some e), w)
         | Inr users1 \<Rightarrow>
             (let sites1 = (case sites of
                              None \<Rightarrow> map fst URL_TEMPLATES
                            | Some (Str s) \<Rightarrow> [s]
                            | Some (Seq ss) \<Rightarrow> ss)
              in search_sites L sites1 users1 repos1 w))"

section \<open>Notions of the specification\<close>


text \<open>
  The normalized identifier of a site: lowercased and, when the lowercased form is not a
  key of the table, with its suffix stripped.
\<close>

definition canonical :: "string \<Rightarrow> string" where
  "canonical site =
     (let s = lower site
      in if map_of URL_TEMPLATES s = None then splitext_root s else s)"

text \<open>The URL of a candidate triple whose site is a key of the table.\<close>

definition candidate_url :: "triple \<Rightarrow> string" where
  "candidate_url c =
     (case c of (repo, user, site) \<Rightarrow>
        (case map_of URL_TEMPLATES site of
           None \<Rightarrow> []
         | Some template \<Rightarrow> format_template template user repo))"

text \<open>The combinations in site-major, then-user, then-repo order.\<close>

definition combinations :: "string list \<Rightarrow> string list \<Rightarrow> string list \<Rightarrow> triple list" where
  "combinations sites users repos =
     concat (map (\<lambda>site. concat (map (\<lambda>user. map (\<lambda>repo. (repo, user, site)) repos) users)) sites)"

text \<open>The world after probing the candidates \<open>cs\<close> in order, and the candidates that exist.\<close>

definition probed :: "triple list \<Rightarrow> world \<Rightarrow> world" where
  "probed cs w = w\<lparr>trace := trace w @ map (\<lambda>c. Probe (candidate_url c)) cs\<rparr>"

definition hits :: "services \<Rightarrow> triple list \<Rightarrow> triple list" where
  "hits L cs = filter (\<lambda>c. urlopen L (candidate_url c) = None) cs"

definition as_list :: "arg \<Rightarrow> string list" where
  "as_list a = (case a of Str s \<Rightarrow> [s] | Seq xs \<Rightarrow> xs)"

section \<open>Example environments\<close>

text \<open>A transport that breaks off after writing part of the file.\<close>

definition broken_transport :: services where
  "broken_transport =
     \<lparr>urlretrieve = (\<lambda>url p f. (Some URLError, f(p \<mapsto> File ''PK''))),
      urlopen = (\<lambda>url. None),
      namelist = (\<lambda>f p. Inr []),
      extractall = (\<lambda>z p f. (None, f)),
      rename = (\<lambda>a b f. (None, f))\<rparr>"

definition home_world :: world where
  "home_world = \<lparr>fs = [''/home/alice'' \<mapsto> Dir], cwd = ''/home/alice'', trace = []\<rparr>"

definition occupied_world :: world where
  "occupied_world =
     \<lparr>fs = [''/home/alice'' \<mapsto> Dir, ''/home/alice/master.zip'' \<mapsto> File ''old''],
      cwd = ''/home/alice'', trace = []\<rparr>"

text \<open>
  A host that serves one archive with the entries \<open>names\<close> under every URL and answers
  the probe of the URLs in \<open>live\<close>; extraction creates the entries under the parent
  folder, and a directory cannot be renamed onto a file.
\<close>

definition archive_host :: "string list \<Rightarrow> string list \<Rightarrow> services" where
  "archive_host names live =
     \<lparr>urlretrieve = (\<lambda>url p f. (None, f(p \<mapsto> File ''PK''))),
      urlopen = (\<lambda>url. if url \<in> set live then None else Some HTTPError),
      namelist = (\<lambda>f p. case f p of Some (File c) \<Rightarrow> Inr names
                                   | _ \<Rightarrow> Inl (OtherError ''BadZipFile'')),
      extractall = (\<lambda>z p f.
         (None, fold (\<lambda>n g. g(rstrip_sep (join p (dropWhile (\<lambda>c. c = CHR ''/'') n))
                                  \<mapsto> (if endswith n ''/'' then Dir else File [])))
                  names f)),
      rename = (\<lambda>a b f. case f b of
                           Some (File c) \<Rightarrow> (Some (NotADirectoryError b), f)
                         | _ \<Rightarrow> (None, (f(rstrip_sep a := None))(b \<mapsto> Dir)))\<rparr>"

definition file_world :: world where
  "file_world =
     \<lparr>fs = [''/home/alice'' \<mapsto> Dir, ''/home/alice/foo'' \<mapsto> File ''notes''],
      cwd = ''/home/alice'', trace = []\<rparr>"

definition checkout_world :: world where
  "checkout_world =
     \<lparr>fs = [''/home/alice'' \<mapsto> Dir, ''/home/alice/foo'' \<mapsto> Dir],
      cwd = ''/home/alice'', trace = []\<rparr>"

text \<open>
  A process whose user id has no entry in the password database and whose environment
  holds no user name, as in a container started under an arbitrary user id.
\<close>

definition anonymous :: identity where
  "anonymous =
     \<lparr>getuser = Inl (KeyError ''getpwuid(): uid not found: 1234''),
      home = ''~'',
      environ = (\<lambda>key. None),
      getlogin = Inl (OtherError ''OSError'')\<rparr>"

definition alice :: identity where
  "alice =
     \<lparr>getuser = Inr ''alice'',
      home = ''/home/Alice'',
      environ = [''USER'' \<mapsto> ''alice''],
      getlogin = Inr ''ALICE''\<rparr>"

section \<open>Properties of download_file\<close>


text \<open>
  C7. When a file already occupies the computed destination path, \<open>download_file\<close> raises
  \<open>FileExistsError\<close> for that path before the transport is called: the world, its file
  system and its trace of service calls, is returned as it was.
\<close>

theorem download_file_never_overwrites:
  "isfile (fs w) (destination w source_url save_path) \<Longrightarrow>
   download_file L source_url save_path w =
     (Inl (FileExistsError (destination w source_url save_path)), w)"
  by (simp add: download_file_def Let_def)

theorem download_file_never_overwrites_witness:
  "isfile (fs occupied_world) (destination occupied_world ''https://github.com/alice/foo/archive/master.zip'' None)
   \<and> download_file broken_transport ''https://github.com/alice/foo/archive/master.zip'' None occupied_world
       = (Inl (FileExistsError ''/home/alice/master.zip''), occupied_world)
   \<and> fs occupied_world ''/home/alice/master.zip'' = Some (File ''old'')"
proof -
  have d: "destination occupied_world ''https://github.com/alice/foo/archive/master.zip'' None
             = ''/home/alice/master.zip''"
    by (simp add: destination_def occupied_world_def join_def basename_def isdir_def
        startswith_def endswith_def)
  have h: "isfile (fs occupied_world)
             (destination occupied_world ''https://github.com/alice/foo/archive/master.zip'' None)"
    unfolding d by (simp add: occupied_world_def isfile_def endswith_def)
  show ?thesis
    using h download_file_never_overwrites [OF h, of broken_transport] d
    by (simp add: occupied_world_def)
qed



section \<open>Properties of the path functions\<close>


lemma rfind_absent: "c \<notin> set xs \<Longrightarrow> rfind c xs = - 1"
  by (induction xs) (auto simp: Let_def)

lemma rfind_present: "c \<in> set xs \<Longrightarrow> 0 \<le> rfind c xs"
  by (induction xs) (auto simp: Let_def)

lemma rfind_last: "c \<notin> set ys \<Longrightarrow> rfind c (xs @ c # ys) = int (length xs)"
  by (induction xs) (auto simp: Let_def rfind_absent)


lemma has_stem_iff: "has_stem p i d \<longleftrightarrow> (\<exists>j. i \<le> j \<and> j < d \<and> p ! j \<noteq> CHR ''.'')"
proof (induction p i d rule: has_stem.induct)
  case (1 p i d)
  show ?case
  proof (cases "i < d")
    case False
    then show ?thesis by (simp add: has_stem.simps [of p i d])
  next
    case True
    show ?thesis
    proof (cases "p ! i \<noteq> CHR ''.''")
      case True
      with \<open>i < d\<close> show ?thesis
        by (auto simp: has_stem.simps [of p i d])
    next
      case False
      then have "has_stem p i d = has_stem p (i + 1) d"
        using \<open>i < d\<close> by (simp add: has_stem.simps [of p i d])
      also have "\<dots> \<longleftrightarrow> (\<exists>j. i + 1 \<le> j \<and> j < d \<and> p ! j \<noteq> CHR ''.'')"
        using 1 \<open>i < d\<close> False by simp
      also have "\<dots> \<longleftrightarrow> (\<exists>j. i \<le> j \<and> j < d \<and> p ! j \<noteq> CHR ''.'')"
        using False by (metis Suc_eq_plus1 Suc_leD Suc_leI le_neq_implies_less)
      finally show ?thesis .
    qed
  qed
qed

lemma splitext_root_dotted:
  assumes k: "k \<noteq> []" "CHR ''.'' \<notin> set k" "CHR ''/'' \<notin> set k"
    and ext: "CHR ''.'' \<notin> set ext" "CHR ''/'' \<notin> set ext"
  shows "splitext_root (k @ CHR ''.'' # ext) = k"
proof -
  let ?s = "k @ CHR ''.'' # ext"
  have d: "rfind (CHR ''.'') ?s = int (length k)"
    using ext by (simp add: rfind_last)
  have s: "rfind (CHR ''/'') ?s = - 1"
    using k ext by (simp add: rfind_absent)
  have "?s ! 0 \<noteq> CHR ''.''"
    using k by (cases k) auto
  then have "has_stem ?s 0 (length k)"
    using k by (auto simp: has_stem_iff)
  then show ?thesis
    by (simp add: splitext_root_def d s)
qed


section \<open>Properties of the search loops\<close>

lemma probed_Nil: "probed [] w = w"
  by (simp add: probed_def)

lemma probed_append: "probed (as @ bs) w = probed bs (probed as w)"
  by (simp add: probed_def)

lemma probed_Cons: "probed (c # cs) w = probed cs (log (Probe (candidate_url c)) w)"
  by (simp add: probed_def log_def)

lemma hits_append: "hits L (as @ bs) = hits L as @ hits L bs"
  by (simp add: hits_def)

lemma search_repos_run:
  assumes "map_of URL_TEMPLATES site = Some t"
    and "\<forall>c\<in>set (map (\<lambda>repo. (repo, user, site)) repos).
           urlopen L (candidate_url c) \<in> {None, Some HTTPError, Some URLError}"
  shows "search_repos L t site user repos w =
           ((hits L (map (\<lambda>repo. (repo, user, site)) repos), None),
            probed (map (\<lambda>repo. (repo, user, site)) repos) w)"
  using assms
proof (induction repos arbitrary: w)
  case Nil
  then show ?case by (simp add: hits_def probed_Nil)
next
  case (Cons repo repos)
  have u: "candidate_url (repo, user, site) = format_template t user repo"
    using Cons.prems(1) by (simp add: candidate_url_def)
  have ih: "search_repos L t site user repos w' =
           ((hits L (map (\<lambda>repo. (repo, user, site)) repos), None),
            probed (map (\<lambda>repo. (repo, user, site)) repos) w')" for w'
    using Cons by simp
  have "urlopen L (format_template t user repo) \<in> {None, Some HTTPError, Some URLError}"
    using Cons.prems(2) u by simp
  then show ?case
    by (auto simp: Let_def ih u hits_def probed_Cons)
qed

lemma search_users_run:
  assumes "map_of URL_TEMPLATES site = Some t"
    and "\<forall>c\<in>set (combinations [site] users repos).
           urlopen L (candidate_url c) \<in> {None, Some HTTPError, Some URLError}"
  shows "search_users L t site users repos w =
           ((hits L (combinations [site] users repos), None),
            probed (combinations [site] users repos) w)"
  using assms
proof (induction users arbitrary: w)
  case Nil
  then show ?case by (simp add: hits_def probed_Nil combinations_def)
next
  case (Cons user users)
  have split: "combinations [site] (user # users) repos =
                 map (\<lambda>repo. (repo, user, site)) repos @ combinations [site] users repos"
    by (simp add: combinations_def)
  have r: "search_repos L t site user repos w =
           ((hits L (map (\<lambda>repo. (repo, user, site)) repos), None),
            probed (map (\<lambda>repo. (repo, user, site)) repos) w)"
    using Cons.prems split by (intro search_repos_run) auto
  have ih: "search_users L t site users repos w' =
           ((hits L (combinations [site] users repos), None),
            probed (combinations [site] users repos) w')" for w'
    using Cons split by simp
  show ?case
    by (simp add: r ih split hits_append probed_append)
qed


lemma site_step:
  "search_sites L (site # sites) users repos w =
     (case map_of URL_TEMPLATES (canonical site) of
        None \<Rightarrow> (([], Some (KeyError (lower site))), w)
      | Some template \<Rightarrow>
          (case search_users L template (canonical site) users repos w of
             ((ys, Some e), w1) \<Rightarrow> ((ys, Some e), w1)
           | ((ys, None), w1) \<Rightarrow>
               (case search_sites L sites users repos w1 of
                  ((zs, e), w2) \<Rightarrow> ((ys @ zs, e), w2))))"
  by (simp add: canonical_def Let_def split: option.splits)

lemma search_sites_prefix:
  assumes "\<forall>site\<in>set pre. map_of URL_TEMPLATES (canonical site) \<noteq> None"
    and "\<forall>c\<in>set (combinations (map canonical pre) users repos).
           urlopen L (candidate_url c) \<in> {None, Some HTTPError, Some URLError}"
  shows "search_sites L (pre @ rest) users repos w =
           (case search_sites L rest users repos
                   (probed (combinations (map canonical pre) users repos) w) of
              ((zs, e), w2) \<Rightarrow>
                ((hits L (combinations (map canonical pre) users repos) @ zs, e), w2))"
  using assms
proof (induction pre arbitrary: w)
  case Nil
  then show ?case
    by (simp add: combinations_def hits_def probed_Nil split: prod.splits)
next
  case (Cons site pre)
  let ?k = "canonical site"
  obtain t where t: "map_of URL_TEMPLATES ?k = Some t"
    using Cons.prems(1) by auto
  have split: "combinations (?k # map canonical pre) users repos =
                 combinations [?k] users repos @ combinations (map canonical pre) users repos"
    by (simp add: combinations_def)
  have u: "search_users L t ?k users repos w =
             ((hits L (combinations [?k] users repos), None),
              probed (combinations [?k] users repos) w)"
    using Cons.prems(2) split by (intro search_users_run [OF t]) auto
  have ih: "search_sites L (pre @ rest) users repos w' =
           (case search_sites L rest users repos
                   (probed (combinations (map canonical pre) users repos) w') of
              ((zs, e), w2) \<Rightarrow>
                ((hits L (combinations (map canonical pre) users repos) @ zs, e), w2))" for w'
    using Cons split by simp
  have "search_sites L ((site # pre) @ rest) users repos w =
          (case search_sites L (pre @ rest) users repos
                  (probed (combinations [?k] users repos) w) of
             ((zs, e), w2) \<Rightarrow> ((hits L (combinations [?k] users repos) @ zs, e), w2))"
    using site_step [of L site "pre @ rest" users repos w]
    by (simp add: t u del: search_sites.simps)
  then show ?case
    by (simp add: ih split hits_append probed_append del: search_sites.simps split: prod.splits)
qed

lemma search_repos_yields:
  "c \<in> set (fst (fst (search_repos L t site user repos w))) \<Longrightarrow> snd (snd c) = site"
proof (induction repos arbitrary: w c)
  case Nil
  then show ?case by simp
next
  case (Cons repo repos)
  let ?w1 = "log (Probe (format_template t user repo)) w"
  obtain ys e w2 where r: "search_repos L t site user repos ?w1 = ((ys, e), w2)"
    by (metis prod.exhaust)
  have "c = (repo, user, site) \<or> c \<in> set ys"
    using Cons.prems r by (auto simp: Let_def split: option.splits if_splits)
  then show ?case
    using Cons.IH [of c ?w1] r by auto
qed

lemma search_users_yields:
  "c \<in> set (fst (fst (search_users L t site users repos w))) \<Longrightarrow> snd (snd c) = site"
proof (induction users arbitrary: w c)
  case Nil
  then show ?case by simp
next
  case (Cons user users)
  obtain ys e w1 where r: "search_repos L t site user repos w = ((ys, e), w1)"
    by (metis prod.exhaust)
  obtain zs e' w2 where s: "search_users L t site users repos w1 = ((zs, e'), w2)"
    by (metis prod.exhaust)
  have "c \<in> set ys \<or> c \<in> set zs"
    using Cons.prems r s by (cases e) auto
  then show ?case
  proof
    assume "c \<in> set ys"
    then show ?thesis
      using search_repos_yields [of c L t site user repos w] r by simp
  next
    assume "c \<in> set zs"
    then show ?thesis
      using Cons.IH [of c w1] s by simp
  qed
qed

lemma search_sites_yields:
  "c \<in> set (fst (fst (search_sites L sites users repos w))) \<Longrightarrow>
     snd (snd c) \<in> canonical ` set sites \<and> map_of URL_TEMPLATES (snd (snd c)) \<noteq> None"
proof (induction sites arbitrary: w c)
  case Nil
  then show ?case by simp
next
  case (Cons site sites)
  show ?case
  proof (cases "map_of URL_TEMPLATES (canonical site)")
    case None
    then show ?thesis
      using Cons.prems by (simp add: site_step del: search_sites.simps)
  next
    case (Some t)
    obtain ys e w1 where u: "search_users L t (canonical site) users repos w = ((ys, e), w1)"
      by (metis prod.exhaust)
    obtain zs e' w2 where s: "search_sites L sites users repos w1 = ((zs, e'), w2)"
      by (metis prod.exhaust)
    have "c \<in> set ys \<or> c \<in> set zs"
      using Cons.prems u s Some by (cases e) (auto simp: site_step simp del: search_sites.simps)
    then show ?thesis
    proof
      assume "c \<in> set ys"
      then have "snd (snd c) = canonical site"
        using search_users_yields [of c L t "canonical site" users repos w] u by simp
      then show ?thesis
        using Some by simp
    next
      assume "c \<in> set zs"
      then show ?thesis
        using Cons.IH [of c w1] s by simp
    qed
  qed
qed

lemma table_keys: "map_of URL_TEMPLATES k \<noteq> None \<Longrightarrow> k = ''bitbucket'' \<or> k = ''github''"
  by (auto simp: URL_TEMPLATES_def split: if_splits)

lemma lower_key: "map_of URL_TEMPLATES k \<noteq> None \<Longrightarrow> lower k = k"
proof -
  assume "map_of URL_TEMPLATES k \<noteq> None"
  then have "k = ''bitbucket'' \<or> k = ''github''"
    by (rule table_keys)
  then show ?thesis
    by (auto simp: lower_def lower_char_def)
qed

section \<open>Properties of search\<close>


lemma canonical_github: "canonical ''github'' = ''github''"
  by (simp add: canonical_def lower_def lower_char_def URL_TEMPLATES_def)


lemma github_url:
  "candidate_url (repo, user, ''github'') =
     ''https://github.com/'' @ user @ ''/'' @ repo @ ''/archive/master.zip''"
  by (simp add: candidate_url_def URL_TEMPLATES_def)




text \<open>
  C6. When the sites of a \<open>search\<close> contain an identifier that does not resolve, the
  generator ends with \<open>KeyError\<close> for the first such identifier as soon as it reaches
  it: the combinations of the sites before it have been probed and their hits yielded,
  the identifier is not skipped, and no site after it is probed.
\<close>

theorem search_fails_at_unknown_site:
  assumes "as_list sites = pre @ bad # post"
    and "\<forall>site\<in>set pre. map_of URL_TEMPLATES (canonical site) \<noteq> None"
    and "map_of URL_TEMPLATES (canonical bad) = None"
    and "\<forall>c\<in>set (combinations (map canonical pre) (as_list users) (as_list repos)).
           urlopen L (candidate_url c) \<in> {None, Some HTTPError, Some URLError}"
  shows "search L idn repos (Some users) (Some sites) w =
           ((hits L (combinations (map canonical pre) (as_list users) (as_list repos)),
             Some (KeyError (lower bad))),
            probed (combinations (map canonical pre) (as_list users) (as_list repos)) w)"
proof -
  have "search L idn repos (Some users) (Some sites) w =
          search_sites L (pre @ bad # post) (as_list users) (as_list repos) w"
    using assms(1) by (simp add: search_def as_list_def split: arg.splits)
  also have "\<dots> =
      (case search_sites L (bad # post) (as_list users) (as_list repos)
              (probed (combinations (map canonical pre) (as_list users) (as_list repos)) w) of
         ((zs, e), w2) \<Rightarrow>
           ((hits L (combinations (map canonical pre) (as_list users) (as_list repos)) @ zs, e), w2))"
    using assms(2,4) by (rule search_sites_prefix)
  finally show ?thesis
    by (simp add: site_step assms(3) del: search_sites.simps)
qed

lemma canonical_gitlab: "map_of URL_TEMPLATES (canonical ''gitlab'') = None"
  by (simp add: canonical_def lower_def lower_char_def URL_TEMPLATES_def splitext_root_def Let_def)

theorem search_fails_at_unknown_site_witness:
  "search (archive_host [] [''https://github.com/alice/foo/archive/master.zip'',
                            ''https://bitbucket.org/alice/foo/get/master.zip''])
      alice (Str ''foo'') (Some (Str ''alice'')) (Some (Seq [''github'', ''gitlab'', ''bitbucket'']))
      home_world =
     (([(''foo'', ''alice'', ''github'')], Some (KeyError ''gitlab'')),
      home_world\<lparr>trace := [Probe ''https://github.com/alice/foo/archive/master.zip'']\<rparr>)"
proof -
  let ?L = "archive_host [] [''https://github.com/alice/foo/archive/master.zip'',
                            ''https://bitbucket.org/alice/foo/get/master.zip'']"
  have h1: "as_list (Seq [''github'', ''gitlab'', ''bitbucket'']) =
              [''github''] @ ''gitlab'' # [''bitbucket'']"
    by (simp add: as_list_def)
  have h2: "\<forall>site\<in>set [''github'']. map_of URL_TEMPLATES (canonical site) \<noteq> None"
    by (simp add: canonical_github URL_TEMPLATES_def)
  have h4: "\<forall>c\<in>set (combinations (map canonical [''github'']) (as_list (Str ''alice''))
                      (as_list (Str ''foo''))).
              urlopen ?L (candidate_url c) \<in> {None, Some HTTPError, Some URLError}"
    by (simp add: archive_host_def)
  have l: "lower ''gitlab'' = ''gitlab''"
    by (simp add: lower_def lower_char_def)
  show ?thesis
    using search_fails_at_unknown_site [OF h1 h2 canonical_gitlab h4, of alice home_world]
    by (simp add: l as_list_def combinations_def canonical_github hits_def probed_def
        github_url archive_host_def home_world_def)
qed

text \<open>
  C10. The site of every triple that \<open>search\<close> yields is the normalized identifier of
  one of the sites searched, not the string the caller gave: it is a key of the template
  table and it is its own lowercase form, so the first lookup of \<open>clone\<close> finds it.
\<close>

theorem search_yields_canonical_site:
  assumes "(repo, user, site) \<in> set (fst (fst (search L idn repos users sites w)))"
  shows "site \<in> canonical ` set (case sites of None \<Rightarrow> map fst URL_TEMPLATES
                                              | Some ss \<Rightarrow> as_list ss)
         \<and> map_of URL_TEMPLATES site \<noteq> None
         \<and> lower site = site"
proof -
  let ?ss = "case sites of None \<Rightarrow> map fst URL_TEMPLATES | Some ss \<Rightarrow> as_list ss"
  obtain us rs where "(repo, user, site) \<in> set (fst (fst (search_sites L ?ss us rs w)))"
    using assms
    by (auto simp: search_def Let_def as_list_def split: sum.splits option.splits arg.splits)
  then have "snd (snd (repo, user, site)) \<in> canonical ` set ?ss
             \<and> map_of URL_TEMPLATES (snd (snd (repo, user, site))) \<noteq> None"
    by (rule search_sites_yields)
  then show ?thesis
    using lower_key [of site] by simp
qed


lemma canonical_dotted: "canonical ''GitHub.COM'' = ''github''"
proof -
  have l: "lower ''GitHub.COM'' = ''github'' @ CHR ''.'' # ''com''"
    by (simp add: lower_def lower_char_def)
  have "splitext_root (''github'' @ CHR ''.'' # ''com'') = ''github''"
    by (rule splitext_root_dotted) simp_all
  then show ?thesis
    unfolding canonical_def l by (simp add: URL_TEMPLATES_def)
qed

theorem search_yields_canonical_site_witness:
  "(''foo'', ''alice'', ''github'')
     \<in> set (fst (fst (search (archive_host [] [''https://github.com/alice/foo/archive/master.zip''])
          alice (Str ''foo'') (Some (Str ''alice'')) (Some (Str ''GitHub.COM'')) home_world)))
   \<and> ''github'' \<in> canonical ` set (as_list (Str ''GitHub.COM''))
   \<and> map_of URL_TEMPLATES ''github'' \<noteq> None
   \<and> lower ''github'' = ''github''"
proof -
  let ?L = "archive_host [] [''https://github.com/alice/foo/archive/master.zip'']"
  have h1: "\<forall>site\<in>set [''GitHub.COM'']. map_of URL_TEMPLATES (canonical site) \<noteq> None"
    by (simp add: canonical_dotted URL_TEMPLATES_def)
  have h2: "\<forall>c\<in>set (combinations (map canonical [''GitHub.COM'']) [''alice''] [''foo'']).
              urlopen ?L (candidate_url c) \<in> {None, Some HTTPError, Some URLError}"
    by (simp add: archive_host_def)
  have "search ?L alice (Str ''foo'') (Some (Str ''alice'')) (Some (Str ''GitHub.COM'')) home_world =
          search_sites ?L ([''GitHub.COM''] @ []) [''alice''] [''foo''] home_world"
    by (simp add: search_def del: search_sites.simps)
  also have "\<dots> =
      ((hits ?L (combinations (map canonical [''GitHub.COM'']) [''alice''] [''foo'']), None),
       probed (combinations (map canonical [''GitHub.COM'']) [''alice''] [''foo'']) home_world)"
    unfolding search_sites_prefix [OF h1 h2] by simp
  finally have y: "(''foo'', ''alice'', ''github'')
     \<in> set (fst (fst (search ?L alice (Str ''foo'') (Some (Str ''alice'')) (Some (Str ''GitHub.COM''))
          home_world)))"
    by (simp add: combinations_def canonical_dotted hits_def github_url archive_host_def)
  from search_yields_canonical_site [OF y] y show ?thesis
    by simp
qed

section \<open>The normalized identifier of a site\<close>





section \<open>Properties of clone_from_url\<close>

lemma home_destination:
  "destination home_world ''https://github.com/alice/foo/archive/master.zip'' (Some ''/home/alice'')
     = ''/home/alice/master.zip''"
  by (simp add: destination_def home_world_def join_def basename_def isdir_def
      startswith_def endswith_def)

lemma home_download:
  "download_file (archive_host names live) ''https://github.com/alice/foo/archive/master.zip''
     (Some ''/home/alice'') home_world =
   (Inr ''/home/alice/master.zip'',
    \<lparr>fs = [''/home/alice'' \<mapsto> Dir, ''/home/alice/master.zip'' \<mapsto> File ''PK''],
     cwd = ''/home/alice'',
     trace = [Retrieve ''https://github.com/alice/foo/archive/master.zip'' ''/home/alice/master.zip'']\<rparr>)"
  unfolding download_file_def home_destination
  by (simp add: Let_def home_world_def isfile_def archive_host_def log_def)

text \<open>
  The loop stops at the first root entry: the names after it are never examined, whatever
  they are.
\<close>

lemma find_root_stops_at_root:
  assumes "name \<noteq> []" and "\<not> startswith name ''/''"
    and "count_char name (CHR ''/'') = 1" and "endswith name ''/''"
  shows "find_root (name # names) = Inr (Some name)"
  using assms by simp

lemma find_root_rejects_first_absolute:
  "startswith name ''/'' \<Longrightarrow>
   find_root (name # names) = Inl (AssertionError ''Downloaded repo contained absolute path.'')"
  by simp

text \<open>
  C1. The claim says that an archive with an absolute path among its entries fails with
  an integrity error and that nothing is extracted. The assertion of the source, whose
  message is about the whole downloaded repository, is only reached for the names before
  the first root entry. On the archive with the entries \<open>foo-master/\<close> and
  \<open>/etc/passwd\<close>, in this order, \<open>clone_from_url\<close> raises nothing: it extracts the
  archive and returns the extracted directory.
\<close>

theorem absolute_entry_after_root:
  "clone_from_url (archive_host [''foo-master/'', ''/etc/passwd''] [])
     ''https://github.com/alice/foo/archive/master.zip'' (Some ''/home/alice'') home_world =
   (Inr ''/home/alice/foo-master/'',
    \<lparr>fs = [''/home/alice'' \<mapsto> Dir, ''/home/alice/foo-master'' \<mapsto> Dir,
           ''/home/alice/etc/passwd'' \<mapsto> File []],
     cwd = ''/home/alice'',
     trace = [Retrieve ''https://github.com/alice/foo/archive/master.zip'' ''/home/alice/master.zip'',
              Extract ''/home/alice/master.zip'' ''/home/alice'',
              Remove ''/home/alice/master.zip'']\<rparr>)"
proof -
  let ?L = "archive_host [''foo-master/'', ''/etc/passwd''] []"
  let ?w1 = "\<lparr>fs = [''/home/alice'' \<mapsto> Dir, ''/home/alice/master.zip'' \<mapsto> File ''PK''],
     cwd = ''/home/alice'',
     trace = [Retrieve ''https://github.com/alice/foo/archive/master.zip'' ''/home/alice/master.zip'']\<rparr>"
  have p: "resolve_parent home_world (Some ''/home/alice'') = Inr ''/home/alice''"
    by (simp add: resolve_parent_def home_world_def isdir_def endswith_def)
  have u: "unpack ?L ''/home/alice/master.zip'' ''/home/alice'' ?w1 =
             (Inr ''/home/alice/foo-master/'',
              \<lparr>fs = [''/home/alice'' \<mapsto> Dir, ''/home/alice/master.zip'' \<mapsto> File ''PK'',
                     ''/home/alice/foo-master'' \<mapsto> Dir, ''/home/alice/etc/passwd'' \<mapsto> File []],
               cwd = ''/home/alice'',
               trace = [Retrieve ''https://github.com/alice/foo/archive/master.zip'' ''/home/alice/master.zip'',
                        Extract ''/home/alice/master.zip'' ''/home/alice'']\<rparr>)"
    by (simp add: unpack_def archive_host_def Let_def startswith_def endswith_def count_char_def
        join_def isdir_def log_def)
  have "clone_from_url ?L ''https://github.com/alice/foo/archive/master.zip'' (Some ''/home/alice'')
          home_world =
        (let (r, w2) = unpack ?L ''/home/alice/master.zip'' ''/home/alice'' ?w1
         in if isfile (fs w2) ''/home/alice/master.zip''
            then (r, (log (Remove ''/home/alice/master.zip'') w2)\<lparr>fs := remove (fs w2) ''/home/alice/master.zip''\<rparr>)
            else (r, w2))"
    by (simp add: clone_from_url_def p home_download)
  then show ?thesis
    unfolding u
    by (simp add: isfile_def endswith_def log_def remove_def fun_upd_twist)
qed




section \<open>Properties of clone\<close>

text \<open>
  C4, as amended. When the parent folder is the default or an existing directory and
  \<open>parent/repo\<close> is already a directory, \<open>clone\<close> raises \<open>IsADirectoryError\<close> for
  that path and calls no service: the world, its file system and its trace, is returned
  as it was.
\<close>

theorem clone_existing_directory:
  assumes "resolve_parent w parent = Inr parent'"
    and "isdir (fs w) (join parent' repo)"
  shows "clone L repo user site parent w = (Inl (IsADirectoryError (join parent' repo)), w)"
  using assms by (simp add: clone_def)

theorem clone_existing_directory_witness:
  "clone (archive_host [''foo-master/''] []) ''foo'' ''alice'' ''github'' None checkout_world =
     (Inl (IsADirectoryError ''/home/alice/foo''), checkout_world)"
proof -
  have p: "resolve_parent checkout_world None = Inr ''/home/alice''"
    by (simp add: resolve_parent_def checkout_world_def)
  have j: "join ''/home/alice'' ''foo'' = ''/home/alice/foo''"
    by (simp add: join_def startswith_def endswith_def)
  have d: "isdir (fs checkout_world) (join ''/home/alice'' ''foo'')"
    unfolding j by (simp add: checkout_world_def isdir_def endswith_def)
  show ?thesis
    using clone_existing_directory [OF p d] j by simp
qed

text \<open>
  C4, as stated, fails when \<open>parent/repo\<close> exists as a regular file: the guard of the
  source is \<open>os.path.isdir\<close>, so the archive is downloaded and extracted, and the call
  ends in the exception of \<open>os.rename\<close>.
\<close>

theorem clone_onto_file_counterexample:
  "fs file_world ''/home/alice/foo'' = Some (File ''notes'')
   \<and> clone (archive_host [''foo-master/''] []) ''foo'' ''alice'' ''github'' None file_world =
       (Inl (NotADirectoryError ''/home/alice/foo''),
        \<lparr>fs = [''/home/alice'' \<mapsto> Dir, ''/home/alice/foo'' \<mapsto> File ''notes'',
               ''/home/alice/foo-master'' \<mapsto> Dir],
         cwd = ''/home/alice'',
         trace = [Retrieve ''https://github.com/alice/foo/archive/master.zip'' ''/home/alice/master.zip'',
                  Extract ''/home/alice/master.zip'' ''/home/alice'',
                  Remove ''/home/alice/master.zip'',
                  Rename ''/home/alice/foo-master/'' ''/home/alice/foo'']\<rparr>)"
proof -
  let ?L = "archive_host [''foo-master/''] []"
  let ?url = "''https://github.com/alice/foo/archive/master.zip''"
  let ?f1 = "[''/home/alice'' \<mapsto> Dir, ''/home/alice/foo'' \<mapsto> File ''notes'',
              ''/home/alice/master.zip'' \<mapsto> File ''PK'']"
  let ?w1 = "\<lparr>fs = ?f1, cwd = ''/home/alice'',
              trace = [Retrieve ?url ''/home/alice/master.zip'']\<rparr>"
  let ?f2 = "[''/home/alice'' \<mapsto> Dir, ''/home/alice/foo'' \<mapsto> File ''notes'',
              ''/home/alice/foo-master'' \<mapsto> Dir]"
  let ?w3 = "\<lparr>fs = ?f2, cwd = ''/home/alice'',
              trace = [Retrieve ?url ''/home/alice/master.zip'',
                       Extract ''/home/alice/master.zip'' ''/home/alice'',
                       Remove ''/home/alice/master.zip'']\<rparr>"
  have dest: "destination file_world ?url (Some ''/home/alice'') = ''/home/alice/master.zip''"
    by (simp add: destination_def file_world_def join_def basename_def isdir_def
        startswith_def endswith_def)
  have d: "download_file ?L ?url (Some ''/home/alice'') file_world = (Inr ''/home/alice/master.zip'', ?w1)"
    unfolding download_file_def dest
    by (simp add: Let_def file_world_def isfile_def archive_host_def log_def)
  have u: "unpack ?L ''/home/alice/master.zip'' ''/home/alice'' ?w1 =
             (Inr ''/home/alice/foo-master/'',
              \<lparr>fs = ?f1(''/home/alice/foo-master'' \<mapsto> Dir), cwd = ''/home/alice'',
               trace = [Retrieve ?url ''/home/alice/master.zip'',
                        Extract ''/home/alice/master.zip'' ''/home/alice'']\<rparr>)"
    by (simp add: unpack_def archive_host_def Let_def startswith_def endswith_def count_char_def
        join_def isdir_def log_def)
  have p: "resolve_parent file_world (Some ''/home/alice'') = Inr ''/home/alice''"
    by (simp add: resolve_parent_def file_world_def isdir_def endswith_def)
  have "clone_from_url ?L ?url (Some ''/home/alice'') file_world =
        (let (r, w2) = unpack ?L ''/home/alice/master.zip'' ''/home/alice'' ?w1
         in if isfile (fs w2) ''/home/alice/master.zip''
            then (r, (log (Remove ''/home/alice/master.zip'') w2)\<lparr>fs := remove (fs w2) ''/home/alice/master.zip''\<rparr>)
            else (r, w2))"
    by (simp add: clone_from_url_def p d)
  then have c: "clone_from_url ?L ?url (Some ''/home/alice'') file_world =
                  (Inr ''/home/alice/foo-master/'', ?w3)"
    unfolding u
    by (simp add: isfile_def endswith_def log_def remove_def fun_upd_twist)
  have p0: "resolve_parent file_world None = Inr ''/home/alice''"
    by (simp add: resolve_parent_def file_world_def)
  have j: "join ''/home/alice'' ''foo'' = ''/home/alice/foo''"
    by (simp add: join_def startswith_def endswith_def)
  have nd: "\<not> isdir (fs file_world) ''/home/alice/foo''"
    by (simp add: file_world_def isdir_def endswith_def)
  have l: "lower ''github'' = ''github''"
    by (simp add: lower_def lower_char_def)
  have t: "map_of URL_TEMPLATES ''github'' = Some ''https://github.com/{user}/{repo}/archive/master.zip''"
    by (simp add: URL_TEMPLATES_def)
  have f: "format_template ''https://github.com/{user}/{repo}/archive/master.zip'' ''alice'' ''foo'' = ?url"
    by simp
  have "clone ?L ''foo'' ''alice'' ''github'' None file_world =
          (let w2 = log (Rename ''/home/alice/foo-master/'' ''/home/alice/foo'') ?w3;
               (r, f) = rename ?L ''/home/alice/foo-master/'' ''/home/alice/foo'' (fs w2);
               w3 = w2\<lparr>fs := f\<rparr>
           in case r of
                Some e \<Rightarrow> (Inl e, w3)
              | None \<Rightarrow>
                  (if \<not> isdir (fs w3) ''/home/alice/foo''
                   then (Inl (NotADirectoryError ''/home/alice/foo''), w3)
                   else (Inr ''/home/alice/foo'', w3)))"
    unfolding clone_def p0
    by (simp only: sum.case j nd l t f c Let_def if_False if_True option.case prod.case
        option.distinct not_False_eq_True)
  then show ?thesis
    by (simp add: archive_host_def log_def file_world_def)
qed


section \<open>Properties of iter_default_users\<close>

text \<open>
  C2. The claim says that the enumeration of the default users never raises. The source
  guards \<open>os.getlogin()\<close> with \<open>try\<close> and the environment variables with a membership
  test, but calls \<open>getpass.getuser()\<close> unguarded: in a process for which it raises, the
  enumeration raises the same exception.
\<close>

theorem iter_default_users_raises:
  "iter_default_users anonymous = Inl (KeyError ''getpwuid(): uid not found: 1234'')"
  by (simp add: iter_default_users_def anonymous_def)

text \<open>
  When \<open>getpass.getuser()\<close> answers, the enumeration yields at least that name, and no
  two of the names it yields are equal in lowercase.
\<close>

lemma uncovered_fresh:
  "c \<in> set (uncovered cs covered) \<Longrightarrow> lower c \<notin> covered"
  by (induction cs arbitrary: covered) (auto split: if_splits)

lemma uncovered_distinct: "distinct (map lower (uncovered cs covered))"
  by (induction cs arbitrary: covered) (auto dest: uncovered_fresh)

lemma iter_default_users_distinct:
  assumes "iter_default_users idn = Inr us"
  shows "us \<noteq> [] \<and> distinct (map lower us)"
proof -
  obtain u cs where us: "us = uncovered (u # cs) {}"
    using assms
    by (auto simp: iter_default_users_def Let_def simp del: uncovered.simps split: sum.splits)
  have "uncovered (u # cs) {} \<noteq> []"
    by simp
  then show ?thesis
    unfolding us using uncovered_distinct [of "u # cs" "{}"] by blast
qed


section \<open>Properties of the site lookup in clone and search\<close>







end
